theory Spec2Isabelle
  imports Complex_Main "HOL-Library.Word" "HOL-Library.Sublist"
begin

unbundle bit_operations_syntax

section \<open>Bytes, strings and JavaScript reads\<close>

text \<open>
  A \<^verbatim>\<open>Uint8Array\<close> is a list of 8-bit words. JavaScript strings are modelled as
  \<^typ>\<open>string\<close>, a list of 8-bit code units: every code unit the modelled
  functions build themselves comes from one byte (\<^verbatim>\<open>String.fromCharCode\<close> of a
  value below 256) or from a literal of the source, whose characters all lie
  below 256. File names, error messages and XML texts are inputs and are taken
  in the same range. JavaScript numbers that hold offsets and lengths are
  integers far below \<open>2^53\<close> and are modelled as \<^typ>\<open>int\<close>.
\<close>

type_synonym u8 = "8 word"

text \<open>\<^verbatim>\<open>String.fromCharCode(b)\<close> for a byte \<open>b\<close>.\<close>

definition fromCharCode :: "u8 \<Rightarrow> char" where
  "fromCharCode b = char_of (unat b)"

section \<open>common.ts: extractStrings\<close>

text \<open>
  The test of the scan loop of \<^verbatim>\<open>extractStrings\<close>:
  \<^verbatim>\<open>(charCode >= 32 && charCode <= 126) || charCode === 9 || charCode === 10 || charCode === 13\<close>.
\<close>

definition printable :: "u8 \<Rightarrow> bool" where
  "printable charCode =
     ((32 \<le> unat charCode \<and> unat charCode \<le> 126) \<or> unat charCode = 9
        \<or> unat charCode = 10 \<or> unat charCode = 13)"

text \<open>
  The conditional \<^verbatim>\<open>if (currentString.length >= minLength) strings.push(currentString)\<close>,
  which the source has twice: in the loop's else branch and after the loop.
\<close>

definition flush :: "int \<Rightarrow> string list \<Rightarrow> string \<Rightarrow> string list" where
  "flush minLength strings currentString =
     (if minLength \<le> int (length currentString) then strings @ [currentString] else strings)"

text \<open>
  The \<^verbatim>\<open>for\<close> loop over the buffer, with the two mutable variables
  \<^verbatim>\<open>strings\<close> and \<^verbatim>\<open>currentString\<close> passed as state; the equation for
  the empty list is the code after the loop.
\<close>

fun scan :: "int \<Rightarrow> u8 list \<Rightarrow> string list \<Rightarrow> string \<Rightarrow> string list" where
  "scan minLength [] strings currentString = flush minLength strings currentString"
| "scan minLength (charCode # rest) strings currentString =
     (if printable charCode
      then scan minLength rest strings (currentString @ [fromCharCode charCode])
      else scan minLength rest (flush minLength strings currentString) [])"

definition extractStrings :: "u8 list \<Rightarrow> int \<Rightarrow> string list" where
  "extractStrings data minLength = scan minLength data [] []"

text \<open>The default argument \<^verbatim>\<open>minLength = 4\<close>.\<close>

definition extractStrings_default :: "u8 list \<Rightarrow> string list" where
  "extractStrings_default data = extractStrings data 4"

subsection \<open>The scan as the specification words it\<close>

text \<open>
  The specification describes the result as the contiguous runs of printable
  bytes, each kept when its length is at least \<open>minLength\<close>. \<open>runs\<close> cuts the
  buffer at every non-printable byte (a buffer with \<open>k\<close> such bytes has
  \<open>k + 1\<close> runs, some possibly empty), and \<open>spec_extractStrings\<close> keeps the runs
  that are long enough, in buffer order.
\<close>

fun runs :: "u8 list \<Rightarrow> u8 list list" where
  "runs [] = [] # []"
| "runs (b # bs) =
     (if printable b
      then (case runs bs of r # rs \<Rightarrow> (b # r) # rs | [] \<Rightarrow> [b] # [])
      else [] # runs bs)"

definition spec_extractStrings :: "u8 list \<Rightarrow> int \<Rightarrow> string list" where
  "spec_extractStrings data minLength =
     filter (\<lambda>s. minLength \<le> int (length s)) (map (map fromCharCode) (runs data))"

text \<open>The character set of the results: code in \<open>[0x20, 0x7E]\<close>, or tab, LF, CR.\<close>

definition printable_char :: "char \<Rightarrow> bool" where
  "printable_char c =
     ((32 \<le> (of_char c :: nat) \<and> (of_char c :: nat) \<le> 126) \<or> (of_char c :: nat) = 9
        \<or> (of_char c :: nat) = 10 \<or> (of_char c :: nat) = 13)"

text \<open>Byte buffers of ASCII text, for the examples.\<close>

definition bytes_of :: "string \<Rightarrow> u8 list" where
  "bytes_of s = map (\<lambda>c. word_of_nat (of_char c)) s"

section \<open>parsers.ts: the data model\<close>

text \<open>
  A \<^verbatim>\<open>File\<close>: its declared MIME type (\<^verbatim>\<open>file.type\<close>, empty when the browser
  knows none), its name and its bytes (\<^verbatim>\<open>await file.arrayBuffer()\<close>).
\<close>

record File =
  file_type :: string
  file_name :: string
  file_bytes :: "u8 list"

text \<open>
  The tags of the ExifReader tree that \<^verbatim>\<open>parseImage\<close> reads. A tag is present or
  absent; a present tag carries its \<^verbatim>\<open>description\<close>, which may be undefined.
\<close>

type_synonym tag = "string option"

record exif_tags =
  Software :: "tag option"
  DateTimeOriginal :: "tag option"
  DateTime :: "tag option"

record xmp_tags =
  CreatorTool :: "tag option"

record tag_tree =
  exif :: "exif_tags option"
  xmp :: "xmp_tags option"

text \<open>The fields \<^verbatim>\<open>parsePdf\<close> reads from the loaded document.\<close>

record pdf_info =
  pdf_pageCount :: nat
  pdf_title :: "string option"
  pdf_author :: "string option"
  pdf_subject :: "string option"
  pdf_keywords :: "string option"
  pdf_creator :: "string option"
  pdf_producer :: "string option"
  pdf_creationDate :: "int option"
  pdf_modificationDate :: "int option"

text \<open>
  \<^verbatim>\<open>metadata.core\<close> and \<^verbatim>\<open>metadata.app\<close> of \<^verbatim>\<open>parseDocx\<close>; each field is the
  text of the first element of that tag name, or null.
\<close>

record core_props =
  core_creator :: "string option"
  core_lastModifiedBy :: "string option"
  core_revision :: "string option"
  core_created :: "string option"
  core_modified :: "string option"
  core_title :: "string option"
  core_subject :: "string option"
  core_description :: "string option"

record app_props =
  app_template :: "string option"
  app_totalTime :: "string option"
  app_pages :: "string option"
  app_words :: "string option"
  app_application :: "string option"
  app_company :: "string option"
  app_docSecurity :: "string option"

text \<open>
  \<^verbatim>\<open>metadata: Record<string, any>\<close> is an object whose keys depend on the
  parser: the tag tree of an image, the nine fields of a PDF (one group,
  assigned together), \<^verbatim>\<open>core\<close> and \<^verbatim>\<open>app\<close> of a DOCX. The record has
  every key as optional; the literal \<^verbatim>\<open>{}\<close> has none.
\<close>

record metadata = tag_tree +
  pdf :: "pdf_info option"
  core :: "core_props option"
  app :: "app_props option"

definition empty_object :: metadata where
  "empty_object = \<lparr>exif = None, xmp = None, pdf = None, core = None, app = None\<rparr>"

record chunk =
  name :: string
  size_n :: int
  offset :: int

text \<open>\<^verbatim>\<open>MetadataResult\<close>; the optional fields are \<open>None\<close> where a parser leaves them out.\<close>

record MetadataResult =
  fileType :: string
  metadata :: metadata
  warnings :: "string list"
  chunks :: "chunk list option"
  xmlDump :: "string option"

text \<open>
  The libraries and browser functions the parsers call are parameters of the
  model. A call that throws or rejects returns \<open>Inl\<close> of the error's message.
  \<^item> \<open>exif_load\<close>: \<^verbatim>\<open>ExifReader.load(file, { expanded: true })\<close>;
  \<^item> \<open>pdf_load\<close>: \<^verbatim>\<open>PDFDocument.load\<close> followed by the nine getters of
    \<^verbatim>\<open>parsePdf\<close>, which all come before the first line of the \<^verbatim>\<open>try\<close> block
    that has an effect; \<open>Inl\<close> when the load or any of the getters throws,
    \<open>Inr\<close> of the nine values when all return;
  \<^item> \<open>zip_load\<close>: \<^verbatim>\<open>JSZip.loadAsync(file)\<close>; the archive maps a path to its
    entry (\<^verbatim>\<open>zip.file(path)\<close>), and an entry is the outcome of
    \<^verbatim>\<open>entry.async('text')\<close>;
  \<^item> \<open>xml_parse\<close>: \<^verbatim>\<open>DOMParser.parseFromString(text, 'text/xml')\<close>, which does
    not throw, together with \<^verbatim>\<open>getElementsByTagName(tag)[0]\<close> and
    \<^verbatim>\<open>textContent\<close>: the text of the first element of a tag name, if any;
  \<^item> \<open>date_parse\<close>: the time value of \<^verbatim>\<open>new Date(s)\<close>, \<open>None\<close> for an invalid
    date (NaN).
\<close>

type_synonym zip_archive = "string \<Rightarrow> (string + string) option"

record capabilities =
  exif_load :: "u8 list \<Rightarrow> string + tag_tree"
  pdf_load :: "u8 list \<Rightarrow> string + pdf_info"
  zip_load :: "u8 list \<Rightarrow> string + zip_archive"
  xml_parse :: "string \<Rightarrow> string \<Rightarrow> string option"
  date_parse :: "string \<Rightarrow> int option"

section \<open>JavaScript operators used by the parsers\<close>

text \<open>\<^verbatim>\<open>data[i]\<close> on a \<^verbatim>\<open>Uint8Array\<close>: undefined outside the array.\<close>

definition js_index :: "u8 list \<Rightarrow> int \<Rightarrow> u8 option" where
  "js_index data i = (if 0 \<le> i \<and> i < int (length data) then Some (data ! nat i) else None)"

text \<open>
  The operand conversion of \<^verbatim>\<open><<\<close> and \<^verbatim>\<open>|\<close> (ToInt32) and of
  \<^verbatim>\<open>String.fromCharCode\<close> (ToUint16): undefined becomes 0.
\<close>

definition toInt32 :: "u8 option \<Rightarrow> 32 word" where
  "toInt32 v = (case v of None \<Rightarrow> 0 | Some b \<Rightarrow> ucast b)"

definition toUint16 :: "u8 option \<Rightarrow> u8" where
  "toUint16 v = (case v of None \<Rightarrow> 0 | Some b \<Rightarrow> b)"

text \<open>Truthiness of a string or undefined, \<^verbatim>\<open>a || b\<close>, and a template placeholder.\<close>

definition truthy :: "string option \<Rightarrow> bool" where
  "truthy v = (case v of None \<Rightarrow> False | Some s \<Rightarrow> s \<noteq> [])"

definition js_or :: "string option \<Rightarrow> string option \<Rightarrow> string option" where
  "js_or a b = (if truthy a then a else b)"

definition template :: "string option \<Rightarrow> string" where
  "template v = (case v of None \<Rightarrow> ''undefined'' | Some s \<Rightarrow> s)"

text \<open>\<^verbatim>\<open>a < b\<close> on strings: lexicographic on the code units.\<close>

fun js_str_less :: "string \<Rightarrow> string \<Rightarrow> bool" where
  "js_str_less [] [] = False"
| "js_str_less [] (y # ys) = True"
| "js_str_less (x # xs) [] = False"
| "js_str_less (x # xs) (y # ys) =
     ((of_char x :: nat) < of_char y \<or> (x = y \<and> js_str_less xs ys))"

text \<open>\<^verbatim>\<open>s.endsWith(suffix)\<close> and \<^verbatim>\<open>s.includes(sub)\<close>.\<close>

definition endsWith :: "string \<Rightarrow> string \<Rightarrow> bool" where
  "endsWith s suf = (length suf \<le> length s \<and> drop (length s - length suf) s = suf)"

fun includes_str :: "string \<Rightarrow> string \<Rightarrow> bool" where
  "includes_str [] sub = (sub = [])"
| "includes_str (c # cs) sub = (take (length sub) (c # cs) = sub \<or> includes_str cs sub)"

text \<open>
  \<^verbatim>\<open>s.toLowerCase()\<close> on 8-bit code units: \<open>A\<close> to \<open>Z\<close>, and the Latin-1
  capitals 0xC0 to 0xDE other than 0xD7, move up by 32.
\<close>

definition lower_char :: "char \<Rightarrow> char" where
  "lower_char c =
     (let n = (of_char c :: nat)
      in if (65 \<le> n \<and> n \<le> 90) \<or> (192 \<le> n \<and> n \<le> 222 \<and> n \<noteq> 215) then char_of (n + 32) else c)"

definition toLowerCase :: "string \<Rightarrow> string" where
  "toLowerCase s = map lower_char s"

section \<open>parsers.ts: parseImage\<close>

definition exif_error :: "string \<Rightarrow> string" where
  "exif_error message = ''Erro ao ler EXIF: '' @ message"

definition software_warning :: "string option \<Rightarrow> string" where
  "software_warning description = ''Software detectado: '' @ template description"

definition image_temporal_warning :: string where
  "image_temporal_warning =
     ''Inconsist'' @ [CHR 0xEA] @ ''ncia Temporal: Data de Cria'' @ [CHR 0xE7, CHR 0xE3]
       @ ''o posterior '' @ [CHR 0xE0] @ '' Data de Modifica'' @ [CHR 0xE7, CHR 0xE3] @ ''o''"

text \<open>\<^verbatim>\<open>tags.exif?.X\<close>, \<^verbatim>\<open>tags.xmp?.X\<close> and \<^verbatim>\<open>tag?.description\<close>.\<close>

definition exif_tag :: "tag_tree \<Rightarrow> (exif_tags \<Rightarrow> tag option) \<Rightarrow> tag option" where
  "exif_tag tags sel = (case exif tags of None \<Rightarrow> None | Some e \<Rightarrow> sel e)"

definition xmp_tag :: "tag_tree \<Rightarrow> (xmp_tags \<Rightarrow> tag option) \<Rightarrow> tag option" where
  "xmp_tag tags sel = (case xmp tags of None \<Rightarrow> None | Some x \<Rightarrow> sel x)"

definition description :: "tag option \<Rightarrow> string option" where
  "description t = (case t of None \<Rightarrow> None | Some d \<Rightarrow> d)"

text \<open>
  \<^verbatim>\<open>parseImage\<close>, statement by statement: the guarded load, the software
  check, the date check. \<^verbatim>\<open>tags\<close> stays \<^verbatim>\<open>{}\<close> when the load throws.
\<close>

definition parseImage :: "capabilities \<Rightarrow> File \<Rightarrow> MetadataResult" where
  "parseImage caps f =
     (let (tags, w0) =
            (case exif_load caps (file_bytes f) of
               Inl message \<Rightarrow> (\<lparr>exif = None, xmp = None\<rparr>, [exif_error message])
             | Inr t \<Rightarrow> (t, []));
          w1 = (if exif_tag tags Software \<noteq> None \<or> xmp_tag tags CreatorTool \<noteq> None
                then w0 @ [software_warning
                             (js_or (description (exif_tag tags Software))
                                    (description (xmp_tag tags CreatorTool)))]
                else w0);
          created = description (exif_tag tags DateTimeOriginal);
          modified = description (exif_tag tags DateTime);
          w2 = (if truthy created \<and> truthy modified
                     \<and> js_str_less (template modified) (template created)
                then w1 @ [image_temporal_warning] else w1)
      in \<lparr>fileType = ''IMAGE'',
          metadata = \<lparr>exif = exif tags, xmp = xmp tags, pdf = None, core = None, app = None\<rparr>,
          warnings = w2, chunks = None, xmlDump = None\<rparr>)"

section \<open>parsers.ts: parsePng\<close>

definition png_signature_warning :: string where
  "png_signature_warning = ''Assinatura PNG inv'' @ [CHR 0xE1] @ ''lida''"

text \<open>
  \<^verbatim>\<open>data[0] !== 0x89 || data[1] !== 0x50 || data[2] !== 0x4E || data[3] !== 0x47\<close>:
  an undefined element differs from every number.
\<close>

definition bad_magic :: "u8 list \<Rightarrow> bool" where
  "bad_magic data =
     (js_index data 0 \<noteq> Some 0x89 \<or> js_index data 1 \<noteq> Some 0x50
        \<or> js_index data 2 \<noteq> Some 0x4E \<or> js_index data 3 \<noteq> Some 0x47)"

text \<open>
  \<^verbatim>\<open>(data[offset] << 24) | (data[offset + 1] << 16) | (data[offset + 2] << 8) | data[offset + 3]\<close>.
  The operators work on 32-bit values and their result is read as a signed
  32-bit integer (\<open>sint\<close>), as JavaScript does.
\<close>

definition chunk_length :: "u8 list \<Rightarrow> int \<Rightarrow> int" where
  "chunk_length data off =
     sint (push_bit 24 (toInt32 (js_index data off))
           OR push_bit 16 (toInt32 (js_index data (off + 1)))
           OR push_bit 8 (toInt32 (js_index data (off + 2)))
           OR toInt32 (js_index data (off + 3)))"

text \<open>The four bytes at an index read as the unsigned 32-bit big-endian number that the
  PNG format defines as the length of a chunk.\<close>

definition uint32_be :: "u8 list \<Rightarrow> nat \<Rightarrow> nat" where
  "uint32_be data i =
     unat (data ! i) * 2 ^ 24 + unat (data ! (i + 1)) * 2 ^ 16 + unat (data ! (i + 2)) * 2 ^ 8
       + unat (data ! (i + 3))"

text \<open>\<^verbatim>\<open>String.fromCharCode(data[offset + 4], ..., data[offset + 7])\<close>.\<close>

definition chunk_type :: "u8 list \<Rightarrow> int \<Rightarrow> string" where
  "chunk_type data off =
     map (\<lambda>k. fromCharCode (toUint16 (js_index data (off + k)))) [4, 5, 6, 7]"

text \<open>
  The \<^verbatim>\<open>while (offset < data.length)\<close> loop, with \<^verbatim>\<open>offset\<close> and \<^verbatim>\<open>chunks\<close>
  as state. Nothing in the loop bounds the number of its iterations, so the
  walk is a partial function: \<open>None\<close> is a walk that never leaves the loop.
\<close>

partial_function (option) chunk_walk :: "u8 list \<Rightarrow> int \<Rightarrow> chunk list \<Rightarrow> chunk list option" where
  "chunk_walk data off acc =
     (if off < int (length data)
      then if off + 8 > int (length data) then Some acc
           else chunk_walk data (off + (4 + 4 + chunk_length data off + 4))
                  (acc @ [\<lparr>name = chunk_type data off, size_n = chunk_length data off,
                           offset = off\<rparr>])
      else Some acc)"

declare chunk_walk.simps [code]

definition parsePng :: "capabilities \<Rightarrow> File \<Rightarrow> MetadataResult option" where
  "parsePng caps f =
     (let data = file_bytes f;
          w = (if bad_magic data then [png_signature_warning] else [])
      in case chunk_walk data 8 [] of
           None \<Rightarrow> None
         | Some cs \<Rightarrow>
             (let imageResult = parseImage caps f
              in Some \<lparr>fileType = ''PNG'', metadata = metadata imageResult,
                       warnings = w @ warnings imageResult, chunks = Some cs,
                       xmlDump = None\<rparr>))"

text \<open>
  What the loop body records for the chunk at an offset: the type tag and the
  length as the code computes them.
\<close>

definition recorded :: "u8 list \<Rightarrow> chunk \<Rightarrow> bool" where
  "recorded data c =
     (name c = chunk_type data (offset c) \<and> size_n c = chunk_length data (offset c))"

section \<open>parsers.ts: parsePdf\<close>

definition pdf_error :: "string \<Rightarrow> string" where
  "pdf_error message = ''Erro ao analisar PDF: '' @ message"

definition javascript_warning :: string where
  "javascript_warning = ''JavaScript embarcado detectado (potencialmente malicioso)''"

definition action_warning :: string where
  "action_warning =
     ''A'' @ [CHR 0xE7, CHR 0xF5] @ ''es autom'' @ [CHR 0xE1]
       @ ''ticas detectadas (/OpenAction ou /AA)''"

text \<open>
  \<^verbatim>\<open>strings.some(s => s.includes('/JavaScript') || s.includes('/JS'))\<close> and
  \<^verbatim>\<open>strings.some(s => s.includes('/OpenAction') || s.includes('/AA'))\<close>.
\<close>

definition has_script :: "string list \<Rightarrow> bool" where
  "has_script strings =
     list_ex (\<lambda>s. includes_str s ''/JavaScript'' \<or> includes_str s ''/JS'') strings"

definition has_action :: "string list \<Rightarrow> bool" where
  "has_action strings =
     list_ex (\<lambda>s. includes_str s ''/OpenAction'' \<or> includes_str s ''/AA'') strings"

text \<open>
  \<^verbatim>\<open>parsePdf\<close>. The \<^verbatim>\<open>try\<close> block loads the document, reads its fields into
  \<^verbatim>\<open>metadata\<close>, then scans the strings of the buffer; the \<^verbatim>\<open>catch\<close> block
  pushes the error. A load or a field read that throws leaves the block before \<^verbatim>\<open>metadata\<close>
  is assigned and before the scan.
\<close>

definition parsePdf :: "capabilities \<Rightarrow> File \<Rightarrow> MetadataResult" where
  "parsePdf caps f =
     (let arrayBuffer = file_bytes f
      in case pdf_load caps arrayBuffer of
           Inl message \<Rightarrow>
             \<lparr>fileType = ''PDF'', metadata = empty_object, warnings = [pdf_error message],
              chunks = None, xmlDump = Some []\<rparr>
         | Inr info \<Rightarrow>
             (let strings = extractStrings_default arrayBuffer;
                  w1 = (if has_script strings then [javascript_warning] else []);
                  w2 = (if has_action strings then w1 @ [action_warning] else w1)
              in \<lparr>fileType = ''PDF'', metadata = empty_object\<lparr>pdf := Some info\<rparr>,
                  warnings = w2, chunks = None, xmlDump = Some []\<rparr>))"

section \<open>parsers.ts: parseDocx\<close>

definition docx_error :: "string \<Rightarrow> string" where
  "docx_error message = ''Erro ao analisar DOCX (ZIP): '' @ message"

definition docx_temporal_warning :: string where
  "docx_temporal_warning =
     ''Inconsist'' @ [CHR 0xEA] @ ''ncia Temporal: Criado depois de Modificado''"

text \<open>The three variables declared before the \<^verbatim>\<open>try\<close> block and changed inside it.\<close>

record docx_state =
  st_metadata :: metadata
  st_warnings :: "string list"
  st_xmlDump :: string

text \<open>\<^verbatim>\<open>xmlDump += '--- ' path ' ---\n' + text + '\n\n'\<close>.\<close>

definition dump :: "string \<Rightarrow> string \<Rightarrow> docx_state \<Rightarrow> docx_state" where
  "dump path text st =
     st\<lparr>st_xmlDump := st_xmlDump st @ ''--- '' @ path @ '' ---'' @ [CHR 0x0A] @ text
                          @ [CHR 0x0A, CHR 0x0A]\<rparr>"

text \<open>The object literals assigned to \<^verbatim>\<open>metadata.core\<close> and \<^verbatim>\<open>metadata.app\<close>.\<close>

definition extract_core :: "(string \<Rightarrow> string option) \<Rightarrow> core_props" where
  "extract_core extract =
     \<lparr>core_creator = extract ''dc:creator'',
      core_lastModifiedBy = extract ''cp:lastModifiedBy'',
      core_revision = extract ''cp:revision'',
      core_created = extract ''dcterms:created'',
      core_modified = extract ''dcterms:modified'',
      core_title = extract ''dc:title'',
      core_subject = extract ''dc:subject'',
      core_description = extract ''dc:description''\<rparr>"

definition extract_app :: "(string \<Rightarrow> string option) \<Rightarrow> app_props" where
  "extract_app extract =
     \<lparr>app_template = extract ''Template'',
      app_totalTime = extract ''TotalTime'',
      app_pages = extract ''Pages'',
      app_words = extract ''Words'',
      app_application = extract ''Application'',
      app_company = extract ''Company'',
      app_docSecurity = extract ''DocSecurity''\<rparr>"

text \<open>
  \<^verbatim>\<open>new Date(a) > new Date(b)\<close>: the comparison of the two time values, false
  when either is NaN.
\<close>

definition date_after :: "capabilities \<Rightarrow> string \<Rightarrow> string \<Rightarrow> bool" where
  "date_after caps a b =
     (case date_parse caps a of
        None \<Rightarrow> False
      | Some x \<Rightarrow> (case date_parse caps b of None \<Rightarrow> False | Some y \<Rightarrow> y < x))"

text \<open>
  \<^verbatim>\<open>if (metadata.core.created && metadata.core.modified) if (new Date(...) > new Date(...))\<close>:
  both strings are neither null nor empty, and the dates compare.
\<close>

definition created_after_modified :: "capabilities \<Rightarrow> core_props \<Rightarrow> bool" where
  "created_after_modified caps c =
     (case core_created c of
        None \<Rightarrow> False
      | Some cr \<Rightarrow>
          (case core_modified c of
             None \<Rightarrow> False
           | Some mo \<Rightarrow> cr \<noteq> [] \<and> mo \<noteq> [] \<and> date_after caps cr mo))"

text \<open>
  The three parts of the \<^verbatim>\<open>try\<close> block. Each starts with the only call of
  the part that can throw, \<^verbatim>\<open>await entry.async('text')\<close>; \<open>Inl\<close> is that throw,
  which happens before the part has changed anything.
\<close>

definition core_part :: "capabilities \<Rightarrow> zip_archive \<Rightarrow> docx_state \<Rightarrow> string + docx_state" where
  "core_part caps archive st =
     (case archive ''docProps/core.xml'' of
        None \<Rightarrow> Inr st
      | Some (Inl message) \<Rightarrow> Inl message
      | Some (Inr text) \<Rightarrow>
          (let st1 = dump ''docProps/core.xml'' text st;
               c = extract_core (xml_parse caps text);
               st2 = st1\<lparr>st_metadata := (st_metadata st1)\<lparr>core := Some c\<rparr>\<rparr>
           in Inr (if created_after_modified caps c
                   then st2\<lparr>st_warnings := st_warnings st2 @ [docx_temporal_warning]\<rparr>
                   else st2)))"

definition app_part :: "capabilities \<Rightarrow> zip_archive \<Rightarrow> docx_state \<Rightarrow> string + docx_state" where
  "app_part caps archive st =
     (case archive ''docProps/app.xml'' of
        None \<Rightarrow> Inr st
      | Some (Inl message) \<Rightarrow> Inl message
      | Some (Inr text) \<Rightarrow>
          (let st1 = dump ''docProps/app.xml'' text st
           in Inr (st1\<lparr>st_metadata :=
                     (st_metadata st1)\<lparr>app := Some (extract_app (xml_parse caps text))\<rparr>\<rparr>)))"

definition custom_part :: "zip_archive \<Rightarrow> docx_state \<Rightarrow> string + docx_state" where
  "custom_part archive st =
     (case archive ''docProps/custom.xml'' of
        None \<Rightarrow> Inr st
      | Some (Inl message) \<Rightarrow> Inl message
      | Some (Inr text) \<Rightarrow> Inr (dump ''docProps/custom.xml'' text st))"

text \<open>The state on entry: \<^verbatim>\<open>warnings = []\<close>, \<^verbatim>\<open>metadata = {}\<close>, \<^verbatim>\<open>xmlDump = ''\<close>.\<close>

definition docx_initial :: docx_state where
  "docx_initial = \<lparr>st_metadata = empty_object, st_warnings = [], st_xmlDump = []\<rparr>"

text \<open>
  The \<^verbatim>\<open>try\<close> block: the state when the block is left, and the message of
  the error that left it, if one did.
\<close>

definition docx_try :: "capabilities \<Rightarrow> File \<Rightarrow> docx_state \<times> string option" where
  "docx_try caps f =
     (case zip_load caps (file_bytes f) of
        Inl message \<Rightarrow> (docx_initial, Some message)
      | Inr archive \<Rightarrow>
          (case core_part caps archive docx_initial of
             Inl message \<Rightarrow> (docx_initial, Some message)
           | Inr st1 \<Rightarrow>
               (case app_part caps archive st1 of
                  Inl message \<Rightarrow> (st1, Some message)
                | Inr st2 \<Rightarrow>
                    (case custom_part archive st2 of
                       Inl message \<Rightarrow> (st2, Some message)
                     | Inr st3 \<Rightarrow> (st3, None)))))"

text \<open>\<^verbatim>\<open>parseDocx\<close>: the \<^verbatim>\<open>try\<close> block, the \<^verbatim>\<open>catch\<close> block, the result.\<close>

definition parseDocx :: "capabilities \<Rightarrow> File \<Rightarrow> MetadataResult" where
  "parseDocx caps f =
     (let (st, thrown) = docx_try caps f;
          w = (case thrown of
                 None \<Rightarrow> st_warnings st
               | Some message \<Rightarrow> st_warnings st @ [docx_error message])
      in \<lparr>fileType = ''DOCX'', metadata = st_metadata st, warnings = w, chunks = None,
          xmlDump = Some (st_xmlDump st)\<rparr>)"

section \<open>parsers.ts: parseFile\<close>

definition docx_mime :: string where
  "docx_mime = ''application/vnd.openxmlformats-officedocument.wordprocessingml.document''"

definition parseFile :: "capabilities \<Rightarrow> File \<Rightarrow> MetadataResult option" where
  "parseFile caps f =
     (let type = file_type f;
          lname = toLowerCase (file_name f)
      in if type = ''image/jpeg'' \<or> endsWith lname ''.jpg'' \<or> endsWith lname ''.jpeg''
         then Some (parseImage caps f)
         else if type = ''image/png'' \<or> endsWith lname ''.png''
         then parsePng caps f
         else if type = ''application/pdf'' \<or> endsWith lname ''.pdf''
         then Some (parsePdf caps f)
         else if type = docx_mime \<or> endsWith lname ''.docx''
         then Some (parseDocx caps f)
         else Some \<lparr>fileType = ''GENERIC'', metadata = empty_object, warnings = [],
                     chunks = None, xmlDump = None\<rparr>)"

text \<open>\<^verbatim>\<open>file.name.toLowerCase().endsWith(ext)\<close>.\<close>

definition has_extension :: "File \<Rightarrow> string \<Rightarrow> bool" where
  "has_extension f ext = endsWith (toLowerCase (file_name f)) ext"

subsection \<open>The dispatch as a rule over an ordered list of formats\<close>

text \<open>
  The dispatch described in words: the formats in the order JPEG, PNG, PDF,
  DOCX, each with its MIME type and its extensions; a format matches a file
  when the declared type is its MIME type or the lower-cased name ends in one
  of its extensions; the first matching format is selected and its parser
  runs; a file that matches no format gets the generic result.
\<close>

datatype format = JPEG | PNG | PDF | DOCX

definition format_mime :: "format \<Rightarrow> string" where
  "format_mime fmt =
     (case fmt of JPEG \<Rightarrow> ''image/jpeg'' | PNG \<Rightarrow> ''image/png''
                | PDF \<Rightarrow> ''application/pdf'' | DOCX \<Rightarrow> docx_mime)"

definition format_extensions :: "format \<Rightarrow> string list" where
  "format_extensions fmt =
     (case fmt of JPEG \<Rightarrow> [''.jpg'', ''.jpeg''] | PNG \<Rightarrow> [''.png'']
                | PDF \<Rightarrow> [''.pdf''] | DOCX \<Rightarrow> [''.docx''])"

definition format_matches :: "File \<Rightarrow> format \<Rightarrow> bool" where
  "format_matches f fmt =
     (file_type f = format_mime fmt \<or> list_ex (has_extension f) (format_extensions fmt))"

definition spec_select_format :: "File \<Rightarrow> format option" where
  "spec_select_format f = find (format_matches f) [JPEG, PNG, PDF, DOCX]"

definition generic_result :: MetadataResult where
  "generic_result =
     \<lparr>fileType = ''GENERIC'', metadata = empty_object, warnings = [], chunks = None,
      xmlDump = None\<rparr>"

definition spec_run_parser :: "capabilities \<Rightarrow> File \<Rightarrow> format option \<Rightarrow> MetadataResult option" where
  "spec_run_parser caps f selected =
     (case selected of
        Some JPEG \<Rightarrow> Some (parseImage caps f)
      | Some PNG \<Rightarrow> parsePng caps f
      | Some PDF \<Rightarrow> Some (parsePdf caps f)
      | Some DOCX \<Rightarrow> Some (parseDocx caps f)
      | None \<Rightarrow> Some generic_result)"

definition spec_parseFile :: "capabilities \<Rightarrow> File \<Rightarrow> MetadataResult option" where
  "spec_parseFile caps f = spec_run_parser caps f (spec_select_format f)"

section \<open>common.ts: getEntropy\<close>

text \<open>
  JavaScript numbers are IEEE doubles. The model leaves their arithmetic
  open: \<open>num\<close> is the number of a count, and division, \<^verbatim>\<open>Math.log2\<close>,
  multiplication and subtraction are parameters. What a theorem needs of them
  is a hypothesis of that theorem.
\<close>

record 'f number_ops =
  num :: "nat \<Rightarrow> 'f"
  divide_op :: "'f \<Rightarrow> 'f \<Rightarrow> 'f"
  log2_op :: "'f \<Rightarrow> 'f"
  times_op :: "'f \<Rightarrow> 'f \<Rightarrow> 'f"
  minus_op :: "'f \<Rightarrow> 'f \<Rightarrow> 'f"

text \<open>The first loop: \<^verbatim>\<open>frequencies[data[i]]++\<close> on an array of 256 zeros.\<close>

definition count_bytes :: "u8 list \<Rightarrow> nat list" where
  "count_bytes data =
     fold (\<lambda>b frequencies. frequencies[unat b := frequencies ! unat b + 1]) data
       (replicate 256 0)"

text \<open>The body of the second loop.\<close>

definition entropy_step :: "'f number_ops \<Rightarrow> nat list \<Rightarrow> nat \<Rightarrow> nat \<Rightarrow> 'f \<Rightarrow> 'f" where
  "entropy_step ops frequencies len i entropy =
     (if 0 < frequencies ! i
      then (let p = divide_op ops (num ops (frequencies ! i)) (num ops len)
            in minus_op ops entropy (times_op ops p (log2_op ops p)))
      else entropy)"

definition getEntropy :: "'f number_ops \<Rightarrow> u8 list \<Rightarrow> 'f" where
  "getEntropy ops data =
     (let frequencies = count_bytes data;
          len = length data
      in fold (entropy_step ops frequencies len) [0..<256] (num ops 0))"

text \<open>The real numbers as an instance of the arithmetic.\<close>

definition real_ops :: "real number_ops" where
  "real_ops = \<lparr>num = real, divide_op = (/), log2_op = log 2, times_op = (*), minus_op = (-)\<rparr>"

section \<open>Inputs of the examples\<close>

definition png_magic :: "u8 list" where
  "png_magic = [0x89, 0x50, 0x4E, 0x47, 0x0D, 0x0A, 0x1A, 0x0A]"

text \<open>Signature, then one chunk header of length 0 and type IEND, then its CRC.\<close>

definition iend_png :: "u8 list" where
  "iend_png = png_magic @ [0, 0, 0, 0] @ bytes_of ''IEND'' @ [0xAE, 0x42, 0x60, 0x82]"

text \<open>Signature, then a chunk header whose length field is FF FF FF F4.\<close>

definition stuck_png :: "u8 list" where
  "stuck_png = png_magic @ [0xFF, 0xFF, 0xFF, 0xF4] @ bytes_of ''IDAT''"

text \<open>Signature, then a chunk header whose length field is FF FF FF F8.\<close>

definition negative_png :: "u8 list" where
  "negative_png = png_magic @ [0xFF, 0xFF, 0xFF, 0xF8] @ bytes_of ''IDAT''"

text \<open>Capabilities that all fail, for closed examples.\<close>

definition failing_caps :: capabilities where
  "failing_caps =
     \<lparr>exif_load = (\<lambda>_. Inl ''Invalid image format''),
      pdf_load = (\<lambda>_. Inl ''No PDF header found''),
      zip_load = (\<lambda>_. Inl ''Corrupted zip''),
      xml_parse = (\<lambda>_ _. None),
      date_parse = (\<lambda>_. None)\<rparr>"

text \<open>
  A package as in the end-to-end example of the specification: its
  \<^verbatim>\<open>docProps/core.xml\<close> has creator \<open>A\<close>, created 2020-01-02 and modified
  2020-01-01. The time values are those of \<^verbatim>\<open>new Date\<close> for the two strings
  (UTC midnight, in milliseconds). The entry \<^verbatim>\<open>docProps/app.xml\<close> of the
  second archive cannot be read; the third archive has only an unreadable
  \<^verbatim>\<open>docProps/custom.xml\<close>.
\<close>

definition sample_core_xml :: string where
  "sample_core_xml = ''<cp:coreProperties><dc:creator>A</dc:creator>''
     @ ''<dcterms:created>2020-01-02</dcterms:created>''
     @ ''<dcterms:modified>2020-01-01</dcterms:modified></cp:coreProperties>''"

definition sample_archive :: zip_archive where
  "sample_archive path =
     (if path = ''docProps/core.xml'' then Some (Inr sample_core_xml) else None)"



definition sample_xml :: "string \<Rightarrow> string \<Rightarrow> string option" where
  "sample_xml text tag_name =
     (if text \<noteq> sample_core_xml then None
      else if tag_name = ''dc:creator'' then Some ''A''
      else if tag_name = ''dcterms:created'' then Some ''2020-01-02''
      else if tag_name = ''dcterms:modified'' then Some ''2020-01-01''
      else None)"

definition sample_date :: "string \<Rightarrow> int option" where
  "sample_date s =
     (if s = ''2020-01-02'' then Some 1577923200000
      else if s = ''2020-01-01'' then Some 1577836800000
      else None)"

definition sample_info :: pdf_info where
  "sample_info =
     \<lparr>pdf_pageCount = 1, pdf_title = None, pdf_author = None, pdf_subject = None,
      pdf_keywords = None, pdf_creator = None, pdf_producer = None,
      pdf_creationDate = None, pdf_modificationDate = None\<rparr>"

definition sample_caps :: "zip_archive \<Rightarrow> capabilities" where
  "sample_caps archive =
     \<lparr>exif_load = (\<lambda>_. Inr \<lparr>exif = None, xmp = None\<rparr>),
      pdf_load = (\<lambda>_. Inr sample_info),
      zip_load = (\<lambda>_. Inr archive),
      xml_parse = sample_xml,
      date_parse = sample_date\<rparr>"

definition sample_file :: "string \<Rightarrow> string \<Rightarrow> File" where
  "sample_file mime file_name' =
     \<lparr>file_type = mime, file_name = file_name', file_bytes = bytes_of ''/JavaScript /OpenAction''\<rparr>"

section \<open>Properties of extractStrings\<close>

lemma runs_not_Nil: "runs bs \<noteq> []"
  by (induction bs) (auto split: list.splits)

lemma scan_runs:
  "scan m bs strings cur =
     strings @ filter (\<lambda>s. m \<le> int (length s))
       (case runs bs of r # rs \<Rightarrow> (cur @ map fromCharCode r) # map (map fromCharCode) rs
                      | [] \<Rightarrow> [])"
proof (induction bs arbitrary: strings cur)
  case Nil
  show ?case by (simp add: flush_def)
next
  case (Cons b bs)
  obtain r rs where rr: "runs bs = r # rs"
    using runs_not_Nil [of bs] by (cases "runs bs") auto
  show ?case
  proof (cases "printable b")
    case True
    then show ?thesis using Cons.IH [of strings "cur @ [fromCharCode b]"] rr by simp
  next
    case False
    then show ?thesis using Cons.IH [of "flush m strings cur" "[]"] rr
      by (simp add: flush_def)
  qed
qed

lemma fromCharCode_printable: "printable b \<Longrightarrow> printable_char (fromCharCode b)"
proof -
  assume p: "printable b"
  have "unat b < 256" using unsigned_less [of b] by simp
  then have "(of_char (fromCharCode b) :: nat) = unat b"
    by (simp add: fromCharCode_def)
  with p show ?thesis by (simp add: printable_def printable_char_def)
qed

lemma scan_invariant:
  "\<forall>s \<in> set strings. m \<le> int (length s) \<and> (\<forall>c \<in> set s. printable_char c) \<Longrightarrow>
   \<forall>c \<in> set cur. printable_char c \<Longrightarrow>
   \<forall>s \<in> set (scan m bs strings cur). m \<le> int (length s) \<and> (\<forall>c \<in> set s. printable_char c)"
proof (induction bs arbitrary: strings cur)
  case Nil
  then show ?case by (auto simp: flush_def)
next
  case (Cons b bs)
  show ?case
  proof (cases "printable b")
    case True
    have "\<forall>c \<in> set (cur @ [fromCharCode b]). printable_char c"
      using Cons.prems(2) True by (auto simp: fromCharCode_printable)
    from Cons.IH [OF Cons.prems(1) this] True show ?thesis by simp
  next
    case False
    have "\<forall>s \<in> set (flush m strings cur). m \<le> int (length s) \<and> (\<forall>c \<in> set s. printable_char c)"
      using Cons.prems by (auto simp: flush_def)
    from Cons.IH [OF this, of "[]"] False show ?thesis by simp
  qed
qed

text \<open>
  C5. \<open>extractStrings\<close> is the single scan over the buffer that the
  specification describes: its result is the sequence of contiguous runs of
  printable bytes (0x20 to 0x7E, tab, LF, CR), cut at every other byte and at
  the end of the buffer, keeping exactly the runs of length at least
  \<open>minLength\<close>, in buffer order. On \<open>AB\<close> 00 \<open>CDEF\<close> 01 \<open>GH\<close> with
  \<open>minLength = 2\<close> it returns \<open>AB\<close>, \<open>CDEF\<close>, \<open>GH\<close>; on \<open>A\<close> 00 \<open>BCDE\<close> with
  \<open>minLength = 4\<close> it drops \<open>A\<close> and keeps \<open>BCDE\<close>.
\<close>

theorem extractStrings_refines_spec:
  "extractStrings data minLength = spec_extractStrings data minLength
   \<and> extractStrings (bytes_of ''AB'' @ [0] @ bytes_of ''CDEF'' @ [1] @ bytes_of ''GH'') 2
       = [''AB'', ''CDEF'', ''GH'']
   \<and> extractStrings (bytes_of ''A'' @ [0] @ bytes_of ''BCDE'') 4 = [''BCDE'']"
proof (intro conjI)
  obtain r rs where rr: "runs data = r # rs"
    using runs_not_Nil [of data] by (cases "runs data") auto
  show "extractStrings data minLength = spec_extractStrings data minLength"
    using scan_runs [of minLength data "[]" "[]"] rr
    by (simp add: extractStrings_def spec_extractStrings_def)
next
  show "extractStrings (bytes_of ''AB'' @ [0] @ bytes_of ''CDEF'' @ [1] @ bytes_of ''GH'') 2
          = [''AB'', ''CDEF'', ''GH'']"
    by (simp add: extractStrings_def bytes_of_def printable_def flush_def fromCharCode_def
        char_of_def bit_iff_odd)
next
  show "extractStrings (bytes_of ''A'' @ [0] @ bytes_of ''BCDE'') 4 = [''BCDE'']"
    by (simp add: extractStrings_def bytes_of_def printable_def flush_def fromCharCode_def
        char_of_def bit_iff_odd)
qed

text \<open>
  C9. Every string returned by \<open>extractStrings\<close> has length at least
  \<open>minLength\<close>, and each of its characters is printable: code in
  \<open>[0x20, 0x7E]\<close>, or 9 (tab), 10 (LF) or 13 (CR).
\<close>

theorem extractStrings_invariant:
  "s \<in> set (extractStrings data minLength) \<Longrightarrow>
     minLength \<le> int (length s) \<and> (\<forall>c \<in> set s. printable_char c)"
  using scan_invariant [of "[]" minLength "[]" data] by (simp add: extractStrings_def)

theorem extractStrings_invariant_witness:
  "''BCDE'' \<in> set (extractStrings (bytes_of ''A'' @ [0] @ bytes_of ''BCDE'') 4)
   \<and> (4::int) \<le> int (length ''BCDE'') \<and> list_all printable_char ''BCDE''"
proof -
  have h: "''BCDE'' \<in> set (extractStrings (bytes_of ''A'' @ [0] @ bytes_of ''BCDE'') 4)"
    by (simp add: extractStrings_def bytes_of_def printable_def flush_def fromCharCode_def
        char_of_def bit_iff_odd)
  show ?thesis using h extractStrings_invariant [OF h] by (simp add: list_all_iff)
qed

section \<open>Properties of parsePng\<close>

subsection \<open>The length field\<close>

lemma or_shift:
  fixes x y :: int
  assumes "0 \<le> y" "y < 2 ^ n"
  shows "push_bit n x OR y = x * 2 ^ n + y"
proof -
  have y: "take_bit n y = y" using assms by (simp add: take_bit_int_eq_self)
  have "\<not> bit (push_bit n x) k \<or> \<not> bit y k" for k
  proof (cases "k < n")
    case True
    then show ?thesis by (simp add: bit_push_bit_iff)
  next
    case False
    have "bit y k = bit (take_bit n y) k" by (simp add: y)
    then show ?thesis using False by (simp add: bit_take_bit_iff)
  qed
  then have "push_bit n x + y = push_bit n x OR y" by (rule disjunctive_add)
  then show ?thesis by (simp add: push_bit_eq_mult)
qed

lemma be32_int:
  fixes a b c d :: int
  assumes "0 \<le> a" "a < 256" "0 \<le> b" "b < 256" "0 \<le> c" "c < 256" "0 \<le> d" "d < 256"
  shows "push_bit 24 a OR push_bit 16 b OR push_bit 8 c OR d
           = a * 2 ^ 24 + b * 2 ^ 16 + c * 2 ^ 8 + d"
proof -
  have e: "push_bit 8 c OR d = c * 2 ^ 8 + d"
    using assms by (intro or_shift) simp_all
  have e_bd: "0 \<le> c * 2 ^ 8 + d" "c * 2 ^ 8 + d < 2 ^ 16" using assms by simp_all
  have g: "push_bit 16 b OR (c * 2 ^ 8 + d) = b * 2 ^ 16 + (c * 2 ^ 8 + d)"
    using e_bd by (intro or_shift) simp_all
  have g_bd: "0 \<le> b * 2 ^ 16 + (c * 2 ^ 8 + d)" "b * 2 ^ 16 + (c * 2 ^ 8 + d) < 2 ^ 24"
    using assms by simp_all
  have h: "push_bit 24 a OR (b * 2 ^ 16 + (c * 2 ^ 8 + d)) = a * 2 ^ 24 + (b * 2 ^ 16 + (c * 2 ^ 8 + d))"
    using g_bd by (intro or_shift) simp_all
  have "push_bit 24 a OR push_bit 16 b OR push_bit 8 c OR d
          = a * 2 ^ 24 + (b * 2 ^ 16 + (c * 2 ^ 8 + d))"
    by (simp only: e g h)
  then show ?thesis by simp
qed

lemma u8_uint_bounds: "0 \<le> uint (b :: u8)" "uint (b :: u8) < 256"
  using uint_bounded [of b] by simp_all

lemma sint_word_of_int_32: "sint (word_of_int n :: 32 word) = signed_take_bit 31 n"
  by (simp add: sint_sbintrunc')

lemma sint_be32:
  fixes b0 b1 b2 b3 :: u8
  shows "sint (push_bit 24 (ucast b0 :: 32 word) OR push_bit 16 (ucast b1) OR push_bit 8 (ucast b2) OR ucast b3)
     = signed_take_bit 31 (uint b0 * 2 ^ 24 + uint b1 * 2 ^ 16 + uint b2 * 2 ^ 8 + uint b3)"
proof -
  let ?N = "push_bit 24 (uint b0) OR push_bit 16 (uint b1) OR push_bit 8 (uint b2) OR uint b3"
  have uc: "(ucast b :: 32 word) = word_of_int (uint b)" for b :: u8
    by (rule ucast_eq)
  have eq: "(push_bit 24 (ucast b0 :: 32 word) OR push_bit 16 (ucast b1) OR push_bit 8 (ucast b2) OR ucast b3)
      = word_of_int ?N"
    by (simp only: uc push_bit_of_int of_int_or_eq)
  have N: "?N = uint b0 * 2 ^ 24 + uint b1 * 2 ^ 16 + uint b2 * 2 ^ 8 + uint b3"
    by (rule be32_int) (rule u8_uint_bounds)+
  show ?thesis by (simp only: eq sint_word_of_int_32 N)
qed

lemma be32_range:
  fixes a b c d :: int
  assumes "0 \<le> a" "a < 128" "0 \<le> b" "b < 256" "0 \<le> c" "c < 256" "0 \<le> d" "d < 256"
  shows "0 \<le> a * 2 ^ 24 + b * 2 ^ 16 + c * 2 ^ 8 + d"
    and "a * 2 ^ 24 + b * 2 ^ 16 + c * 2 ^ 8 + d < 2 ^ 31"
  using assms by simp_all

lemma js_index_in_range:
  "0 \<le> off \<Longrightarrow> off + int k < int (length data) \<Longrightarrow>
     js_index data (off + int k) = Some (data ! (nat off + k))"
  by (simp add: js_index_def nat_add_distrib)

lemma u8_top_bit_clear: "(b :: u8) < 0x80 \<Longrightarrow> uint b < 128"
  by (simp add: word_less_def)

lemma signed_take_bit_31_self: "0 \<le> (n::int) \<Longrightarrow> n < 2 ^ 31 \<Longrightarrow> signed_take_bit 31 n = n"
  by (simp add: signed_take_bit_int_eq_self)

lemma uint32_be_int:
  "int (uint32_be data i) = uint (data ! i) * 2 ^ 24 + uint (data ! (i + 1)) * 2 ^ 16
     + uint (data ! (i + 2)) * 2 ^ 8 + uint (data ! (i + 3))"
  unfolding uint_nat by (simp add: uint32_be_def)

lemma chunk_length_uint32:
  assumes "0 \<le> off" "off + 4 \<le> int (length data)" "data ! nat off < 0x80"
  shows "chunk_length data off = int (uint32_be data (nat off))"
proof -
  let ?b0 = "data ! nat off" and ?b1 = "data ! (nat off + 1)"
  let ?b2 = "data ! (nat off + 2)" and ?b3 = "data ! (nat off + 3)"
  have idx: "js_index data off = Some ?b0" "js_index data (off + 1) = Some ?b1"
    "js_index data (off + 2) = Some ?b2" "js_index data (off + 3) = Some ?b3"
    using assms(1,2) by (auto simp: js_index_def nat_add_distrib)
  have top: "uint ?b0 < 128" using assms(3) by (simp add: word_less_def)
  let ?n = "uint ?b0 * 2 ^ 24 + uint ?b1 * 2 ^ 16 + uint ?b2 * 2 ^ 8 + uint ?b3"
  have range: "0 \<le> ?n" "?n < 2 ^ 31"
    by (rule be32_range; (rule u8_uint_bounds top)+)+
  have "chunk_length data off = signed_take_bit 31 ?n"
    by (simp only: chunk_length_def idx toInt32_def option.case sint_be32)
  also have "\<dots> = ?n"
    using range by (rule signed_take_bit_31_self)
  also have "\<dots> = int (uint32_be data (nat off))"
    by (simp only: uint32_be_int)
  finally show ?thesis .
qed

subsection \<open>The chunk walk\<close>

lemma chunk_walk_short: "int (length data) < off + 8 \<Longrightarrow> chunk_walk data off acc = Some acc"
  by (subst chunk_walk.simps) simp

text \<open>
  The walk returns whenever no length field that it can read is negative:
  the offset then grows by at least 12 in each iteration.
\<close>

lemma chunk_walk_terminates:
  assumes "\<And>o'. off \<le> o' \<Longrightarrow> o' + 8 \<le> int (length data) \<Longrightarrow> 0 \<le> chunk_length data o'"
  shows "\<exists>cs. chunk_walk data off acc = Some cs"
  using assms
proof (induction "nat (int (length data) - off)" arbitrary: off acc rule: less_induct)
  case less
  show ?case
  proof (cases "off < int (length data) \<and> off + 8 \<le> int (length data)")
    case False
    then show ?thesis by (subst chunk_walk.simps) auto
  next
    case True
    let ?off' = "off + (4 + 4 + chunk_length data off + 4)"
    let ?acc' = "acc @ [\<lparr>name = chunk_type data off, size_n = chunk_length data off, offset = off\<rparr>]"
    have len: "0 \<le> chunk_length data off" using less.prems [of off] True by simp
    then have "nat (int (length data) - ?off') < nat (int (length data) - off)"
      using True by simp
    moreover have "\<And>o'. ?off' \<le> o' \<Longrightarrow> o' + 8 \<le> int (length data) \<Longrightarrow> 0 \<le> chunk_length data o'"
      using less.prems len by simp
    ultimately obtain cs where "chunk_walk data ?off' ?acc' = Some cs"
      using less.hyps [of ?off' ?acc'] by blast
    then show ?thesis using True by (subst chunk_walk.simps) simp
  qed
qed

text \<open>Every chunk the walk records was read at the offset it carries.\<close>

lemma chunk_walk_recorded:
  "chunk_walk data off acc = Some cs \<Longrightarrow> list_all (recorded data) acc \<longrightarrow> list_all (recorded data) cs"
proof (rule chunk_walk.raw_induct
    [where P = "\<lambda>data off acc cs. list_all (recorded data) acc \<longrightarrow> list_all (recorded data) cs"])
  show "chunk_walk data off acc = Some cs \<Longrightarrow> chunk_walk data off acc = Some cs" .
next
  fix f :: "u8 list \<Rightarrow> int \<Rightarrow> chunk list \<Rightarrow> chunk list option" and d off acc y
  assume IH: "\<And>d off acc y. f d off acc = Some y \<Longrightarrow>
                list_all (recorded d) acc \<longrightarrow> list_all (recorded d) y"
    and step: "(if off < int (length d)
      then if off + 8 > int (length d) then Some acc
           else f d (off + (4 + 4 + chunk_length d off + 4))
                  (acc @ [\<lparr>name = chunk_type d off, size_n = chunk_length d off, offset = off\<rparr>])
      else Some acc) = Some y"
  show "list_all (recorded d) acc \<longrightarrow> list_all (recorded d) y"
  proof (cases "off < int (length d) \<and> \<not> off + 8 > int (length d)")
    case False
    with step have "y = acc" by (auto split: if_splits)
    then show ?thesis by simp
  next
    case True
    with step have "f d (off + (4 + 4 + chunk_length d off + 4))
        (acc @ [\<lparr>name = chunk_type d off, size_n = chunk_length d off, offset = off\<rparr>]) = Some y"
      by simp
    from IH [OF this] show ?thesis by (simp add: recorded_def)
  qed
qed

text \<open>
  The example of the specification: the signature and one IEND chunk of
  length 0 give the single chunk IEND, size 0, offset 8.
\<close>

lemma iend_png_walk:
  "chunk_walk iend_png 8 [] = Some [\<lparr>name = ''IEND'', size_n = 0, offset = 8\<rparr>]"
  by (simp add: chunk_walk.simps iend_png_def png_magic_def bytes_of_def chunk_length_def
      chunk_type_def js_index_def toInt32_def toUint16_def fromCharCode_def char_of_def bit_iff_odd)

lemma parsePng_iend_example:
  "map_option chunks (parsePng caps \<lparr>file_type = t, file_name = n, file_bytes = iend_png\<rparr>)
     = Some (Some [\<lparr>name = ''IEND'', size_n = 0, offset = 8\<rparr>])"
  by (simp add: parsePng_def iend_png_walk Let_def)

subsection \<open>A length field with the top bit set\<close>

lemma stuck_png_length: "chunk_length stuck_png 8 = - 12"
  by (simp add: chunk_length_def stuck_png_def png_magic_def bytes_of_def js_index_def toInt32_def)

lemma chunk_walk_stuck_aux:
  "chunk_walk d off acc = Some y \<Longrightarrow> d = stuck_png \<longrightarrow> off = 8 \<longrightarrow> False"
proof (rule chunk_walk.raw_induct [where P = "\<lambda>d off acc y. d = stuck_png \<longrightarrow> off = 8 \<longrightarrow> False"])
  show "chunk_walk d off acc = Some y \<Longrightarrow> chunk_walk d off acc = Some y" .
next
  fix f :: "u8 list \<Rightarrow> int \<Rightarrow> chunk list \<Rightarrow> chunk list option" and d off acc y
  assume IH: "\<And>d off acc y. f d off acc = Some y \<Longrightarrow> d = stuck_png \<longrightarrow> off = 8 \<longrightarrow> False"
    and step: "(if off < int (length d)
      then if off + 8 > int (length d) then Some acc
           else f d (off + (4 + 4 + chunk_length d off + 4))
                  (acc @ [\<lparr>name = chunk_type d off, size_n = chunk_length d off, offset = off\<rparr>])
      else Some acc) = Some y"
  show "d = stuck_png \<longrightarrow> off = 8 \<longrightarrow> False"
  proof (intro impI)
    assume d: "d = stuck_png" and off: "off = 8"
    have len: "int (length stuck_png) = 16"
      by (simp add: stuck_png_def png_magic_def bytes_of_def)
    from step d off len stuck_png_length
    have "f stuck_png 8 (acc @ [\<lparr>name = chunk_type stuck_png 8,
            size_n = chunk_length stuck_png 8, offset = 8\<rparr>]) = Some y"
      by simp
    from IH [OF this] show False by simp
  qed
qed

lemma chunk_walk_stuck: "chunk_walk stuck_png 8 acc = None"
  using chunk_walk_stuck_aux [of stuck_png 8 acc] by (cases "chunk_walk stuck_png 8 acc") auto

lemma negative_png_walk:
  "chunk_walk negative_png 8 [] = Some [\<lparr>name = ''IDAT'', size_n = - 8, offset = 8\<rparr>]"
  by (simp add: chunk_walk.simps negative_png_def png_magic_def bytes_of_def chunk_length_def
      chunk_type_def js_index_def toInt32_def toUint16_def fromCharCode_def char_of_def bit_iff_odd)

text \<open>
  C1. The claim: for every buffer the chunk walk of \<open>parsePng\<close> ends after
  finitely many steps, whatever the four bytes of each length field are. On
  the 16-byte buffer \<open>stuck_png\<close> (the signature, the length field
  FF FF FF F4, the type IDAT) the code reads the length as \<open>-12\<close>, so
  \<^verbatim>\<open>offset += 4 + 4 + length + 4\<close> leaves the offset at 8 and the loop never
  ends: the walk, and with it \<open>parsePng\<close>, returns no result.
\<close>

theorem parsePng_diverges:
  "8 + (4 + 4 + chunk_length stuck_png 8 + 4) = 8
   \<and> chunk_walk stuck_png 8 acc = None
   \<and> parsePng caps \<lparr>file_type = t, file_name = n, file_bytes = stuck_png\<rparr> = None"
  by (simp add: stuck_png_length chunk_walk_stuck parsePng_def)

text \<open>
  C7. The claim: every recorded chunk has as size the unsigned 32-bit
  big-endian value of its length field. On \<open>negative_png\<close> (the signature,
  the length field FF FF FF F8, the type IDAT) \<open>parsePng\<close> records the chunk
  IDAT at offset 8 with size \<open>-8\<close>, where the length field read as an
  unsigned 32-bit number is 4294967288.
\<close>

theorem parsePng_negative_size:
  "map_option chunks (parsePng caps \<lparr>file_type = t, file_name = n, file_bytes = negative_png\<rparr>)
     = Some (Some [\<lparr>name = ''IDAT'', size_n = - 8, offset = 8\<rparr>])
   \<and> uint32_be negative_png 8 = 4294967288"
  by (simp add: parsePng_def negative_png_walk Let_def)
     (simp add: uint32_be_def negative_png_def png_magic_def bytes_of_def)

text \<open>
  C10. On a buffer shorter than 4 bytes (the empty one included)
  \<open>parsePng\<close> returns a result: its warnings contain the invalid-signature
  warning and its chunk list is empty.
\<close>

theorem parsePng_short_buffer:
  "length (file_bytes f) < 4 \<Longrightarrow>
     \<exists>r. parsePng caps f = Some r \<and> png_signature_warning \<in> set (warnings r)
          \<and> chunks r = Some []"
proof -
  assume short: "length (file_bytes f) < 4"
  then have magic: "bad_magic (file_bytes f)"
    by (simp add: bad_magic_def js_index_def)
  from short have walk: "chunk_walk (file_bytes f) 8 [] = Some []"
    by (intro chunk_walk_short) simp
  show ?thesis by (simp add: parsePng_def magic walk Let_def)
qed

theorem parsePng_short_buffer_witness:
  "length (file_bytes \<lparr>file_type = ''image/png'', file_name = ''a.png'',
                       file_bytes = [0x89, 0x50, 0x4E]\<rparr>) < 4
   \<and> (\<exists>r. parsePng failing_caps
              \<lparr>file_type = ''image/png'', file_name = ''a.png'',
               file_bytes = [0x89, 0x50, 0x4E]\<rparr> = Some r
          \<and> png_signature_warning \<in> set (warnings r) \<and> chunks r = Some [])"
  using parsePng_short_buffer
    [of "\<lparr>file_type = ''image/png'', file_name = ''a.png'', file_bytes = [0x89, 0x50, 0x4E]\<rparr>"
        failing_caps]
  by simp

section \<open>Properties of parsePdf\<close>

lemmas eval_strings =
  extractStrings_default_def extractStrings_def bytes_of_def printable_def flush_def
  fromCharCode_def char_of_def bit_iff_odd

lemma sample_strings:
  "extractStrings (bytes_of ''/JavaScript /OpenAction'') 4 = [''/JavaScript /OpenAction'']"
  by (simp add: eval_strings)

lemma sample_has_script: "has_script [''/JavaScript /OpenAction'']"
  by (simp add: has_script_def)

lemma sample_has_action: "has_action [''/JavaScript /OpenAction'']"
  by (simp add: has_action_def)

text \<open>
  C3, as the code has it. The two substring heuristics are part of the
  \<^verbatim>\<open>try\<close> block and come after \<^verbatim>\<open>PDFDocument.load\<close> and after the nine
  reads of document fields (page count, title, author, subject, keywords,
  creator, producer, creation date, modification date); \<open>pdf_load\<close> returns
  \<open>Inr\<close> exactly when the load and all nine reads return. In that case
  extracted strings (runs of at least 4 printable bytes) that contain
  \<^verbatim>\<open>/JavaScript\<close> or \<^verbatim>\<open>/JS\<close> give the embedded-JavaScript warning, and
  strings that contain \<^verbatim>\<open>/OpenAction\<close> or \<^verbatim>\<open>/AA\<close> give the
  automatic-action warning. When the load or one of the nine reads throws,
  the heuristics are not applied and the parse-failure warning is the only
  warning.
\<close>

theorem parsePdf_heuristics_after_load:
  "(pdf_load caps (file_bytes f) = Inr info \<longrightarrow>
       (has_script (extractStrings (file_bytes f) 4)
          \<longrightarrow> javascript_warning \<in> set (warnings (parsePdf caps f)))
     \<and> (has_action (extractStrings (file_bytes f) 4)
          \<longrightarrow> action_warning \<in> set (warnings (parsePdf caps f))))
   \<and> (pdf_load caps (file_bytes f) = Inl message \<longrightarrow>
         warnings (parsePdf caps f) = [pdf_error message])"
  by (simp add: parsePdf_def extractStrings_default_def Let_def)

theorem parsePdf_heuristics_after_load_witness:
  "pdf_load (sample_caps sample_archive) (file_bytes (sample_file ''application/pdf'' ''a.pdf''))
     = Inr sample_info
   \<and> has_script (extractStrings (file_bytes (sample_file ''application/pdf'' ''a.pdf'')) 4)
   \<and> javascript_warning
        \<in> set (warnings (parsePdf (sample_caps sample_archive) (sample_file ''application/pdf'' ''a.pdf'')))
   \<and> has_action (extractStrings (file_bytes (sample_file ''application/pdf'' ''a.pdf'')) 4)
   \<and> action_warning
        \<in> set (warnings (parsePdf (sample_caps sample_archive) (sample_file ''application/pdf'' ''a.pdf'')))
   \<and> pdf_load failing_caps (file_bytes (sample_file ''application/pdf'' ''a.pdf''))
        = Inl ''No PDF header found''
   \<and> warnings (parsePdf failing_caps (sample_file ''application/pdf'' ''a.pdf''))
        = [pdf_error ''No PDF header found'']"
proof -
  let ?f = "sample_file ''application/pdf'' ''a.pdf''"
  have bytes: "file_bytes ?f = bytes_of ''/JavaScript /OpenAction''"
    by (simp add: sample_file_def)
  have ok: "pdf_load (sample_caps sample_archive) (file_bytes ?f) = Inr sample_info"
    by (simp add: sample_caps_def)
  have ko: "pdf_load failing_caps (file_bytes ?f) = Inl ''No PDF header found''"
    by (simp add: failing_caps_def)
  have s: "has_script (extractStrings (file_bytes ?f) 4)"
    and a: "has_action (extractStrings (file_bytes ?f) 4)"
    by (simp_all only: bytes sample_strings sample_has_script sample_has_action)
  from parsePdf_heuristics_after_load [of "sample_caps sample_archive" ?f sample_info] ok s a
    parsePdf_heuristics_after_load [of failing_caps ?f _ "''No PDF header found''"] ko
  show ?thesis by blast
qed

text \<open>
  The claim as stated fails: a buffer whose strings contain both markers, with
  a load (or a field read) that throws, gets the parse-failure warning and
  neither of the two heuristic warnings.
\<close>

theorem parsePdf_heuristics_counterexample:
  "has_script (extractStrings (file_bytes (sample_file ''application/pdf'' ''a.pdf'')) 4)
   \<and> has_action (extractStrings (file_bytes (sample_file ''application/pdf'' ''a.pdf'')) 4)
   \<and> warnings (parsePdf failing_caps (sample_file ''application/pdf'' ''a.pdf''))
        = [pdf_error ''No PDF header found'']
   \<and> javascript_warning
        \<notin> set (warnings (parsePdf failing_caps (sample_file ''application/pdf'' ''a.pdf'')))
   \<and> action_warning
        \<notin> set (warnings (parsePdf failing_caps (sample_file ''application/pdf'' ''a.pdf'')))"
proof -
  let ?f = "sample_file ''application/pdf'' ''a.pdf''"
  have bytes: "file_bytes ?f = bytes_of ''/JavaScript /OpenAction''"
    by (simp add: sample_file_def)
  have s: "has_script (extractStrings (file_bytes ?f) 4)"
    and a: "has_action (extractStrings (file_bytes ?f) 4)"
    by (simp_all only: bytes sample_strings sample_has_script sample_has_action)
  have w: "warnings (parsePdf failing_caps ?f) = [pdf_error ''No PDF header found'']"
    by (simp add: parsePdf_def failing_caps_def)
  have "javascript_warning \<noteq> pdf_error ''No PDF header found''"
    "action_warning \<noteq> pdf_error ''No PDF header found''"
    by (simp_all add: javascript_warning_def action_warning_def pdf_error_def)
  with s a w show ?thesis by simp
qed

section \<open>Properties of parseDocx\<close>




lemma core_part_read:
  "z ''docProps/core.xml'' = Some (Inr text) \<Longrightarrow>
     \<exists>st'. core_part caps z st = Inr st'
       \<and> core (st_metadata st') = Some (extract_core (xml_parse caps text))
       \<and> app (st_metadata st') = app (st_metadata st)
       \<and> st_warnings st' = st_warnings st
            @ (if created_after_modified caps (extract_core (xml_parse caps text))
               then [docx_temporal_warning] else [])"
  by (simp add: core_part_def Let_def dump_def)

lemma app_part_keeps:
  "app_part caps z st = Inr st' \<Longrightarrow>
     st_warnings st' = st_warnings st \<and> core (st_metadata st') = core (st_metadata st)"
  by (auto simp: app_part_def Let_def dump_def split: option.splits sum.splits)

lemma custom_part_keeps:
  "custom_part z st = Inr st' \<Longrightarrow>
     st_warnings st' = st_warnings st \<and> st_metadata st' = st_metadata st"
  by (auto simp: custom_part_def dump_def split: option.splits sum.splits)


lemma docx_try_after_core:
  assumes "zip_load caps (file_bytes f) = Inr z" "core_part caps z docx_initial = Inr st1"
  shows "\<exists>st thrown. docx_try caps f = (st, thrown)
           \<and> core (st_metadata st) = core (st_metadata st1)
           \<and> st_warnings st = st_warnings st1"
proof (cases "app_part caps z st1")
  case (Inl m)
  with assms show ?thesis by (simp add: docx_try_def)
next
  case (Inr st2)
  note app = this
  show ?thesis
  proof (cases "custom_part z st2")
    case (Inl m)
    with assms app app_part_keeps [OF app] show ?thesis by (simp add: docx_try_def)
  next
    case (Inr st3)
    with assms app app_part_keeps [OF app] custom_part_keeps [OF Inr] show ?thesis
      by (simp add: docx_try_def)
  qed
qed

text \<open>
  C8. When the package opens and \<^verbatim>\<open>docProps/core.xml\<close> is read, with created
  and modified both parsing as valid dates and created later than modified,
  the warnings of \<open>parseDocx\<close> contain the temporal-inconsistency warning and
  \<^verbatim>\<open>metadata.core.creator\<close> is the text of the creator element, whatever
  happens in the later parts. The empty string is not a valid date
  (\<^verbatim>\<open>new Date('')\<close> is invalid). The witness is the package of the
  specification: creator \<open>A\<close>, created 2020-01-02, modified 2020-01-01.
\<close>

theorem parseDocx_temporal:
  assumes "zip_load caps (file_bytes f) = Inr z"
    and "z ''docProps/core.xml'' = Some (Inr text)"
    and "date_parse caps [] = None"
    and "xml_parse caps text ''dcterms:created'' = Some created"
    and "xml_parse caps text ''dcterms:modified'' = Some modified"
    and "date_parse caps created = Some t_created"
    and "date_parse caps modified = Some t_modified"
    and "t_modified < t_created"
  shows "docx_temporal_warning \<in> set (warnings (parseDocx caps f))
     \<and> (\<exists>c. core (metadata (parseDocx caps f)) = Some c
            \<and> core_creator c = xml_parse caps text ''dc:creator'')"
proof -
  let ?c = "extract_core (xml_parse caps text)"
  have ne: "created \<noteq> []" "modified \<noteq> []" using assms(3,6,7) by auto
  have cam: "created_after_modified caps ?c"
    using assms(4-8) ne by (simp add: created_after_modified_def extract_core_def date_after_def)
  from core_part_read [of z "text" caps docx_initial] assms(2) cam
  obtain st1 where st1: "core_part caps z docx_initial = Inr st1"
    "core (st_metadata st1) = Some ?c"
    "st_warnings st1 = st_warnings docx_initial @ [docx_temporal_warning]"
    by auto
  from docx_try_after_core [OF assms(1) st1(1)] st1(2,3)
  obtain st thrown where st: "docx_try caps f = (st, thrown)"
    "core (st_metadata st) = Some ?c"
    "st_warnings st = st_warnings docx_initial @ [docx_temporal_warning]"
    by auto
  have "core_creator ?c = xml_parse caps text ''dc:creator''"
    by (simp add: extract_core_def)
  with st show ?thesis
    by (cases thrown) (simp_all add: parseDocx_def)
qed





theorem parseDocx_temporal_witness:
  "zip_load (sample_caps sample_archive) (file_bytes (sample_file docx_mime ''a.docx''))
     = Inr sample_archive
   \<and> sample_archive ''docProps/core.xml'' = Some (Inr sample_core_xml)
   \<and> date_parse (sample_caps sample_archive) [] = None
   \<and> xml_parse (sample_caps sample_archive) sample_core_xml ''dc:creator'' = Some ''A''
   \<and> xml_parse (sample_caps sample_archive) sample_core_xml ''dcterms:created'' = Some ''2020-01-02''
   \<and> xml_parse (sample_caps sample_archive) sample_core_xml ''dcterms:modified'' = Some ''2020-01-01''
   \<and> date_parse (sample_caps sample_archive) ''2020-01-02'' = Some 1577923200000
   \<and> date_parse (sample_caps sample_archive) ''2020-01-01'' = Some 1577836800000
   \<and> docx_temporal_warning
        \<in> set (warnings (parseDocx (sample_caps sample_archive) (sample_file docx_mime ''a.docx'')))
   \<and> (\<exists>c. core (metadata (parseDocx (sample_caps sample_archive) (sample_file docx_mime ''a.docx'')))
            = Some c \<and> core_creator c = Some ''A'')"
proof -
  let ?caps = "sample_caps sample_archive"
  let ?f = "sample_file docx_mime ''a.docx''"
  have h1: "zip_load ?caps (file_bytes ?f) = Inr sample_archive"
    by (simp add: sample_caps_def)
  have h2: "sample_archive ''docProps/core.xml'' = Some (Inr sample_core_xml)"
    by (simp add: sample_archive_def)
  have h3: "date_parse ?caps [] = None"
    by (simp add: sample_caps_def sample_date_def)
  have h4: "xml_parse ?caps sample_core_xml ''dcterms:created'' = Some ''2020-01-02''"
    and h5: "xml_parse ?caps sample_core_xml ''dcterms:modified'' = Some ''2020-01-01''"
    and h0: "xml_parse ?caps sample_core_xml ''dc:creator'' = Some ''A''"
    by (simp_all add: sample_caps_def sample_xml_def)
  have h6: "date_parse ?caps ''2020-01-02'' = Some 1577923200000"
    and h7: "date_parse ?caps ''2020-01-01'' = Some 1577836800000"
    by (simp_all add: sample_caps_def sample_date_def)
  have h8: "(1577836800000 :: int) < 1577923200000" by simp
  from parseDocx_temporal [OF h1 h2 h3 h4 h5 h6 h7 h8] h0 h1 h2 h3 h4 h5 h6 h7
  show ?thesis by simp
qed

section \<open>Properties of parseFile\<close>

lemma endsWith_last: "endsWith s suf \<Longrightarrow> suf \<noteq> [] \<Longrightarrow> last s = last suf"
proof -
  assume e: "endsWith s suf" and ne: "suf \<noteq> []"
  then have d: "drop (length s - length suf) s = suf" and le: "length suf \<le> length s"
    by (simp_all add: endsWith_def)
  from ne le have "length s - length suf < length s" by (cases suf) auto
  then have "last (drop (length s - length suf) s) = last s" by (rule last_drop)
  with d show ?thesis by simp
qed

lemma pdf_name_not_earlier:
  "endsWith s ''.pdf'' \<Longrightarrow>
     \<not> endsWith s ''.jpg'' \<and> \<not> endsWith s ''.jpeg'' \<and> \<not> endsWith s ''.png''"
  using endsWith_last [of s "''.pdf''"] endsWith_last [of s "''.jpg''"]
    endsWith_last [of s "''.jpeg''"] endsWith_last [of s "''.png''"]
  by auto

lemma dat_name_not_jpeg:
  "endsWith s ''.dat'' \<Longrightarrow> \<not> endsWith s ''.jpg'' \<and> \<not> endsWith s ''.jpeg''"
  using endsWith_last [of s "''.dat''"] endsWith_last [of s "''.jpg''"]
    endsWith_last [of s "''.jpeg''"]
  by auto

lemma spec_select_format_cases:
  "spec_select_format f =
     (if file_type f = ''image/jpeg'' \<or> has_extension f ''.jpg'' \<or> has_extension f ''.jpeg''
      then Some JPEG
      else if file_type f = ''image/png'' \<or> has_extension f ''.png'' then Some PNG
      else if file_type f = ''application/pdf'' \<or> has_extension f ''.pdf'' then Some PDF
      else if file_type f = docx_mime \<or> has_extension f ''.docx'' then Some DOCX
      else None)"
  by (simp add: spec_select_format_def format_matches_def format_mime_def format_extensions_def)

lemma parseFile_refines_spec: "parseFile caps f = spec_parseFile caps f"
  by (simp add: parseFile_def spec_parseFile_def spec_run_parser_def spec_select_format_cases
      has_extension_def generic_result_def Let_def)

text \<open>
  C2, as the code has it. \<open>parseFile\<close> is the dispatch over the formats in
  the order JPEG, PNG, PDF, DOCX: it selects the first format whose MIME type
  is the declared one or one of whose extensions (\<^verbatim>\<open>.jpg\<close> and \<^verbatim>\<open>.jpeg\<close>,
  \<^verbatim>\<open>.png\<close>, \<^verbatim>\<open>.pdf\<close>, \<^verbatim>\<open>.docx\<close>) ends the lower-cased name, runs the
  parser of that format alone, and returns the generic result (empty
  metadata, no warnings) when no format matches. So a declared MIME type of a
  supported format selects its parser when the name has no extension of a
  format earlier in that order: \<^verbatim>\<open>image/jpeg\<close> always, \<^verbatim>\<open>image/png\<close> unless
  the name ends in \<^verbatim>\<open>.jpg\<close> or \<^verbatim>\<open>.jpeg\<close>, \<^verbatim>\<open>application/pdf\<close> unless it
  ends in one of these or \<^verbatim>\<open>.png\<close>, the DOCX type unless it ends in one of
  these or \<^verbatim>\<open>.pdf\<close>. In particular \<^verbatim>\<open>image/png\<close> with extension \<^verbatim>\<open>.dat\<close>
  goes to the PNG parser, and no MIME type with extension \<^verbatim>\<open>.pdf\<close> to the
  PDF parser.
\<close>

theorem parseFile_dispatch:
  "parseFile caps f = spec_parseFile caps f
   \<and> (file_type f = ''image/jpeg'' \<longrightarrow> parseFile caps f = Some (parseImage caps f))
   \<and> (file_type f = ''image/png'' \<and> \<not> has_extension f ''.jpg'' \<and> \<not> has_extension f ''.jpeg''
        \<longrightarrow> parseFile caps f = parsePng caps f)
   \<and> (file_type f = ''application/pdf'' \<and> \<not> has_extension f ''.jpg''
        \<and> \<not> has_extension f ''.jpeg'' \<and> \<not> has_extension f ''.png''
        \<longrightarrow> parseFile caps f = Some (parsePdf caps f))
   \<and> (file_type f = docx_mime \<and> \<not> has_extension f ''.jpg'' \<and> \<not> has_extension f ''.jpeg''
        \<and> \<not> has_extension f ''.png'' \<and> \<not> has_extension f ''.pdf''
        \<longrightarrow> parseFile caps f = Some (parseDocx caps f))
   \<and> (file_type f = ''image/png'' \<and> has_extension f ''.dat''
        \<longrightarrow> parseFile caps f = parsePng caps f)
   \<and> (file_type f = [] \<and> has_extension f ''.pdf''
        \<longrightarrow> parseFile caps f = Some (parsePdf caps f))"
proof (intro conjI impI)
  show "parseFile caps f = spec_parseFile caps f"
    by (rule parseFile_refines_spec)
next
  assume "file_type f = ''image/png'' \<and> has_extension f ''.dat''"
  then show "parseFile caps f = parsePng caps f"
    using dat_name_not_jpeg [of "toLowerCase (file_name f)"]
    by (simp add: parseFile_def has_extension_def Let_def)
next
  assume "file_type f = [] \<and> has_extension f ''.pdf''"
  then show "parseFile caps f = Some (parsePdf caps f)"
    using pdf_name_not_earlier [of "toLowerCase (file_name f)"]
    by (simp add: parseFile_def has_extension_def Let_def)
qed (simp_all add: parseFile_def has_extension_def Let_def docx_mime_def)

lemmas eval_names = has_extension_def toLowerCase_def lower_char_def endsWith_def Let_def
  char_of_def bit_iff_odd

theorem parseFile_dispatch_witness:
  "parseFile failing_caps (sample_file ''image/jpeg'' ''A.PNG'')
     = Some (parseImage failing_caps (sample_file ''image/jpeg'' ''A.PNG''))
   \<and> parseFile failing_caps (sample_file ''image/png'' ''a.pdf'')
     = parsePng failing_caps (sample_file ''image/png'' ''a.pdf'')
   \<and> parseFile failing_caps (sample_file ''application/pdf'' ''a.docx'')
     = Some (parsePdf failing_caps (sample_file ''application/pdf'' ''a.docx''))
   \<and> parseFile failing_caps (sample_file docx_mime ''a.bin'')
     = Some (parseDocx failing_caps (sample_file docx_mime ''a.bin''))
   \<and> parseFile failing_caps (sample_file ''image/png'' ''scan.DAT'')
     = parsePng failing_caps (sample_file ''image/png'' ''scan.DAT'')
   \<and> parseFile failing_caps (sample_file [] ''report.pdf'')
     = Some (parsePdf failing_caps (sample_file [] ''report.pdf''))
   \<and> spec_select_format (sample_file [] ''Thesis.DOCX'') = Some DOCX
   \<and> parseFile failing_caps (sample_file [] ''Thesis.DOCX'')
     = Some (parseDocx failing_caps (sample_file [] ''Thesis.DOCX''))
   \<and> spec_select_format (sample_file ''text/plain'' ''notes.txt'') = None
   \<and> parseFile failing_caps (sample_file ''text/plain'' ''notes.txt'') = Some generic_result"
proof -
  have 1: "file_type (sample_file ''image/jpeg'' ''A.PNG'') = ''image/jpeg''"
    by (simp add: sample_file_def)
  have 2: "file_type (sample_file ''image/png'' ''a.pdf'') = ''image/png''
      \<and> \<not> has_extension (sample_file ''image/png'' ''a.pdf'') ''.jpg''
      \<and> \<not> has_extension (sample_file ''image/png'' ''a.pdf'') ''.jpeg''"
    by (simp add: sample_file_def eval_names)
  have 3: "file_type (sample_file ''application/pdf'' ''a.docx'') = ''application/pdf''
      \<and> \<not> has_extension (sample_file ''application/pdf'' ''a.docx'') ''.jpg''
      \<and> \<not> has_extension (sample_file ''application/pdf'' ''a.docx'') ''.jpeg''
      \<and> \<not> has_extension (sample_file ''application/pdf'' ''a.docx'') ''.png''"
    by (simp add: sample_file_def eval_names)
  have 4: "file_type (sample_file docx_mime ''a.bin'') = docx_mime
      \<and> \<not> has_extension (sample_file docx_mime ''a.bin'') ''.jpg''
      \<and> \<not> has_extension (sample_file docx_mime ''a.bin'') ''.jpeg''
      \<and> \<not> has_extension (sample_file docx_mime ''a.bin'') ''.png''
      \<and> \<not> has_extension (sample_file docx_mime ''a.bin'') ''.pdf''"
    by (simp add: sample_file_def eval_names)
  have 5: "file_type (sample_file ''image/png'' ''scan.DAT'') = ''image/png''
      \<and> has_extension (sample_file ''image/png'' ''scan.DAT'') ''.dat''"
    by (simp add: sample_file_def eval_names)
  have 6: "file_type (sample_file [] ''report.pdf'') = []
      \<and> has_extension (sample_file [] ''report.pdf'') ''.pdf''"
    by (simp add: sample_file_def eval_names)
  note d = parseFile_dispatch
  have c1: "parseFile failing_caps (sample_file ''image/jpeg'' ''A.PNG'')
     = Some (parseImage failing_caps (sample_file ''image/jpeg'' ''A.PNG''))"
    using 1 d [of failing_caps "sample_file ''image/jpeg'' ''A.PNG''"] by (elim conjE) (erule mp)
  have c2: "parseFile failing_caps (sample_file ''image/png'' ''a.pdf'')
     = parsePng failing_caps (sample_file ''image/png'' ''a.pdf'')"
    using 2 d [of failing_caps "sample_file ''image/png'' ''a.pdf''"] by (elim conjE) (erule mp, intro conjI)
  have c3: "parseFile failing_caps (sample_file ''application/pdf'' ''a.docx'')
     = Some (parsePdf failing_caps (sample_file ''application/pdf'' ''a.docx''))"
    using 3 d [of failing_caps "sample_file ''application/pdf'' ''a.docx''"] by (elim conjE) (erule mp, intro conjI)
  have c4: "parseFile failing_caps (sample_file docx_mime ''a.bin'')
     = Some (parseDocx failing_caps (sample_file docx_mime ''a.bin''))"
    using 4 d [of failing_caps "sample_file docx_mime ''a.bin''"] by (elim conjE) (erule mp, intro conjI)
  have c5: "parseFile failing_caps (sample_file ''image/png'' ''scan.DAT'')
     = parsePng failing_caps (sample_file ''image/png'' ''scan.DAT'')"
    using 5 d [of failing_caps "sample_file ''image/png'' ''scan.DAT''"] by (elim conjE) (erule mp, intro conjI)
  have c6: "parseFile failing_caps (sample_file [] ''report.pdf'')
     = Some (parsePdf failing_caps (sample_file [] ''report.pdf''))"
    using 6 d [of failing_caps "sample_file [] ''report.pdf''"] by (elim conjE) (erule mp, intro conjI)
  have 7: "spec_select_format (sample_file [] ''Thesis.DOCX'') = Some DOCX"
    by (simp add: spec_select_format_cases sample_file_def eval_names docx_mime_def)
  have c7: "parseFile failing_caps (sample_file [] ''Thesis.DOCX'')
     = Some (parseDocx failing_caps (sample_file [] ''Thesis.DOCX''))"
    using d [of failing_caps "sample_file [] ''Thesis.DOCX''", THEN conjunct1]
    by (simp add: spec_parseFile_def spec_run_parser_def 7)
  have 8: "spec_select_format (sample_file ''text/plain'' ''notes.txt'') = None"
    by (simp add: spec_select_format_cases sample_file_def eval_names docx_mime_def)
  have c8: "parseFile failing_caps (sample_file ''text/plain'' ''notes.txt'') = Some generic_result"
    using d [of failing_caps "sample_file ''text/plain'' ''notes.txt''", THEN conjunct1]
    by (simp add: spec_parseFile_def spec_run_parser_def 8)
  from c1 c2 c3 c4 c5 c6 7 c7 8 c8 show ?thesis by (intro conjI)
qed

text \<open>
  The claim as stated fails: a file declared \<^verbatim>\<open>image/png\<close> and named
  \<^verbatim>\<open>a.jpg\<close> goes to \<open>parseImage\<close>, not to the PNG parser.
\<close>

theorem parseFile_mime_first_counterexample:
  "file_type \<lparr>file_type = ''image/png'', file_name = ''a.jpg'', file_bytes = iend_png\<rparr> = ''image/png''
   \<and> parseFile failing_caps \<lparr>file_type = ''image/png'', file_name = ''a.jpg'', file_bytes = iend_png\<rparr>
      = Some (parseImage failing_caps
                \<lparr>file_type = ''image/png'', file_name = ''a.jpg'', file_bytes = iend_png\<rparr>)
   \<and> parseFile failing_caps \<lparr>file_type = ''image/png'', file_name = ''a.jpg'', file_bytes = iend_png\<rparr>
      \<noteq> parsePng failing_caps
           \<lparr>file_type = ''image/png'', file_name = ''a.jpg'', file_bytes = iend_png\<rparr>"
proof -
  let ?f = "\<lparr>file_type = ''image/png'', file_name = ''a.jpg'', file_bytes = iend_png\<rparr>"
  have ext: "endsWith (toLowerCase (file_name ?f)) ''.jpg''"
    by (simp add: eval_names)
  then have img: "parseFile failing_caps ?f = Some (parseImage failing_caps ?f)"
    by (simp add: parseFile_def Let_def)
  have "fileType (parseImage failing_caps ?f) = ''IMAGE''"
    by (simp add: parseImage_def Let_def split: sum.splits prod.splits)
  moreover have "\<exists>r. parsePng failing_caps ?f = Some r \<and> fileType r = ''PNG''"
    by (simp add: parsePng_def iend_png_walk Let_def)
  ultimately have "Some (parseImage failing_caps ?f) \<noteq> parsePng failing_caps ?f"
    by auto
  with img show ?thesis by simp
qed

section \<open>Properties of getEntropy\<close>

lemma count_fold_replicate:
  "unat b < length fr \<Longrightarrow>
     fold (\<lambda>b frequencies. frequencies[unat b := frequencies ! unat b + 1]) (replicate n b) fr
       = fr[unat b := fr ! unat b + n]"
proof (induction n arbitrary: fr)
  case 0
  then show ?case by simp
next
  case (Suc n)
  from Suc.prems have "unat b < length (fr[unat b := fr ! unat b + 1])" by simp
  from Suc.IH [OF this] Suc.prems show ?case by simp
qed

lemma u8_index: "unat (b :: u8) < 256"
  using unsigned_less [of b] by simp

lemma count_bytes_replicate: "count_bytes (replicate n b) = (replicate 256 0)[unat b := n]"
  using count_fold_replicate [of b "replicate 256 0" n] u8_index [of b]
  by (simp add: count_bytes_def)

lemma fold_entropy_single:
  assumes "k < 256" "0 < n" "m \<le> 256"
  shows "fold (entropy_step ops ((replicate 256 0)[k := n]) len) [0..<m] z
           = (if k < m
              then minus_op ops z
                     (times_op ops (divide_op ops (num ops n) (num ops len))
                        (log2_op ops (divide_op ops (num ops n) (num ops len))))
              else z)"
  using assms(3)
proof (induction m)
  case 0
  then show ?case by simp
next
  case (Suc m)
  then have m: "m < 256" by simp
  have at: "((replicate 256 0)[k := n]) ! m = (if m = k then n else 0)"
    using m assms(1) by (simp add: nth_list_update)
  show ?case
    using Suc.IH m assms(2) by (auto simp: entropy_step_def at Let_def)
qed

lemma fold_entropy_none:
  "m \<le> 256 \<Longrightarrow> fold (entropy_step ops (replicate 256 0) len) [0..<m] z = z"
  by (induction m) (simp_all add: entropy_step_def)

text \<open>
  C6. \<open>getEntropy\<close> returns 0 on the empty buffer, whatever the arithmetic
  does: no bucket is positive, so neither the division nor the logarithm is
  evaluated. On \<open>n > 0\<close> equal bytes it returns 0 in every arithmetic where
  \<open>n / n = 1\<close>, \<open>log2 1 = 0\<close>, \<open>1 * 0 = 0\<close> and \<open>0 - 0 = 0\<close>, as IEEE doubles
  with \<^verbatim>\<open>Math.log2\<close> have it: one bucket holds \<open>n\<close>, the others 0.
\<close>

theorem getEntropy_zero:
  "getEntropy ops [] = num ops 0
   \<and> (0 < n
        \<and> divide_op ops (num ops n) (num ops n) = num ops 1
        \<and> log2_op ops (num ops 1) = num ops 0
        \<and> times_op ops (num ops 1) (num ops 0) = num ops 0
        \<and> minus_op ops (num ops 0) (num ops 0) = num ops 0
      \<longrightarrow> getEntropy ops (replicate n b) = num ops 0)"
proof (intro conjI impI)
  show "getEntropy ops [] = num ops 0"
    using fold_entropy_none [of 256 ops 0 "num ops 0"]
    by (simp add: getEntropy_def count_bytes_def)
next
  assume h: "0 < n
        \<and> divide_op ops (num ops n) (num ops n) = num ops 1
        \<and> log2_op ops (num ops 1) = num ops 0
        \<and> times_op ops (num ops 1) (num ops 0) = num ops 0
        \<and> minus_op ops (num ops 0) (num ops 0) = num ops 0"
  then have "fold (entropy_step ops ((replicate 256 0)[unat b := n]) n) [0..<256] (num ops 0)
      = num ops 0"
    using fold_entropy_single [of "unat b" n 256 ops n "num ops 0"] u8_index [of b] by simp
  then show "getEntropy ops (replicate n b) = num ops 0"
    by (simp add: getEntropy_def count_bytes_replicate)
qed

theorem getEntropy_zero_witness:
  "(0::nat) < 3
   \<and> divide_op real_ops (num real_ops 3) (num real_ops 3) = num real_ops 1
   \<and> log2_op real_ops (num real_ops 1) = num real_ops 0
   \<and> times_op real_ops (num real_ops 1) (num real_ops 0) = num real_ops 0
   \<and> minus_op real_ops (num real_ops 0) (num real_ops 0) = num real_ops 0
   \<and> getEntropy real_ops [] = 0
   \<and> getEntropy real_ops (replicate 3 0x41) = 0"
proof -
  have h: "(0::nat) < 3
   \<and> divide_op real_ops (num real_ops 3) (num real_ops 3) = num real_ops 1
   \<and> log2_op real_ops (num real_ops 1) = num real_ops 0
   \<and> times_op real_ops (num real_ops 1) (num real_ops 0) = num real_ops 0
   \<and> minus_op real_ops (num real_ops 0) (num real_ops 0) = num real_ops 0"
    by (simp add: real_ops_def)
  have z: "num real_ops 0 = 0" by (simp add: real_ops_def)
  from getEntropy_zero [of real_ops 3 "0x41", THEN conjunct1]
    getEntropy_zero [of real_ops 3 "0x41", THEN conjunct2, rule_format, OF h] h z
  show ?thesis by simp
qed

end
